theory Spec2Isabelle
  imports Main "HOL-Library.Multiset"
begin

section \<open>The input document\<close>

text \<open>
  Modelled from the spec: the types of the package kin-openapi (\<^verbatim>\<open>openapi3.Swagger\<close>,
  \<^verbatim>\<open>PathItem\<close>, \<^verbatim>\<open>Operation\<close>, \<^verbatim>\<open>Schema\<close>, ...) and its methods
  \<^verbatim>\<open>Paths.Find\<close> and \<^verbatim>\<open>PathItem.Operations\<close> are not in the repository. The input of
  \<^verbatim>\<open>Transform\<close> is a value of the type \<^verbatim>\<open>*openapi3.Swagger\<close>; the part of its object
  graph that \<^verbatim>\<open>spec.go\<close> reads (section 6 of the spec) is declared here, field by field,
  with the library's field names behind a prefix that names the library struct.

  \<^item> A Go map is embedded as the list of its entries, in the order in which a
    \<^verbatim>\<open>range\<close> statement delivers them. Go leaves that order open, so the theorems
    below are stated for every list. The keys of a map are distinct; where a theorem
    needs that, it says so.
  \<^item> A Go slice is a list; the nil slice and the nil map are the empty list.
  \<^item> A pointer that the document format allows to be absent is an \<open>option\<close>; reading
    through \<open>None\<close> is the run-time panic of Go (nil pointer dereference), the value
    \<open>None\<close> of the functions below.
  \<^item> The wrappers \<^verbatim>\<open>SchemaRef\<close>, \<^verbatim>\<open>ParameterRef\<close>, \<^verbatim>\<open>ResponseRef\<close>, ... are
    taken as resolved: a wrapper that is present has its \<^verbatim>\<open>Value\<close>.
\<close>

subsection \<open>Schema objects\<close>

text \<open>
  \<^verbatim>\<open>spec.go\<close> assigns to two fields of \<^verbatim>\<open>openapi3.Schema\<close>, \<^verbatim>\<open>Title\<close> and
  \<^verbatim>\<open>Nullable\<close>, and to no other field of the document. Several references of a document
  may point to one \<^verbatim>\<open>Schema\<close> object, so these two fields live in a store that is
  indexed by the address of the object; the fields that are only read are kept in the
  tree. Two nodes of a tree with the same address stand for the same Go object.
  Schemas are finite trees: a document whose references form a cycle is not a value of
  this type (the source recurses without end on it).
\<close>

type_synonym addr = nat

datatype Schema = Schema
  (Schema_ptr: addr)
  (Schema_Type: string)
  (Schema_Description: string)
  (Schema_Required: "string list")
  (Schema_Properties: "(string \<times> Schema) list")
  (Schema_Items: "Schema option")

record SchemaFields =
  Schema_Title :: string
  Schema_Nullable :: bool

type_synonym store = "addr \<Rightarrow> SchemaFields"

subsection \<open>Parameters, headers, bodies, operations\<close>

record SecurityScheme =
  SecurityScheme_Name :: string
  SecurityScheme_In :: string
  SecurityScheme_Type :: string
  SecurityScheme_Description :: string

record ParameterDecl =
  Parameter_Name :: string
  Parameter_In :: string
  Parameter_Required :: bool
  Parameter_Description :: string
  Parameter_Schema :: "Schema option"

record Header =
  Header_Required :: bool
  Header_Description :: string
  Header_Schema :: "Schema option"

text \<open>
  An example is kept as the text that \<^verbatim>\<open>json.Marshal\<close> returns for its value (the
  source drops the error of \<^verbatim>\<open>json.Marshal\<close>).
\<close>

record MediaType =
  MediaType_Schema :: "Schema option"
  MediaType_Examples :: "(string \<times> string) list"

record RequestBody =
  RequestBody_Content :: "(string \<times> MediaType) list"

record Response =
  Response_Headers :: "(string \<times> Header) list"
  Response_Content :: "(string \<times> MediaType) list"

record Operation =
  Operation_Summary :: string
  Operation_Description :: string
  Operation_Parameters :: "ParameterDecl list"
  Operation_RequestBody :: "RequestBody option"
  Operation_Responses :: "(string \<times> Response) list"

record PathItem =
  PathItem_Connect :: "Operation option"
  PathItem_Delete :: "Operation option"
  PathItem_Get :: "Operation option"
  PathItem_Head :: "Operation option"
  PathItem_Options :: "Operation option"
  PathItem_Patch :: "Operation option"
  PathItem_Post :: "Operation option"
  PathItem_Put :: "Operation option"
  PathItem_Trace :: "Operation option"
  PathItem_Parameters :: "ParameterDecl list"

record InfoObject =
  Info_Title :: string
  Info_Version :: string
  Info_Description :: string

record Swagger =
  Swagger_Info :: "InfoObject option"
  Swagger_Paths :: "(string \<times> PathItem) list"
  Swagger_SecuritySchemes :: "(string \<times> SecurityScheme) list"

subsection \<open>Library functions\<close>

text \<open>
  \<^verbatim>\<open>strings.ToLower\<close> on the ASCII letters; every other byte is kept (the literals the
  source compares with are ASCII).
\<close>

definition lower_char :: "char \<Rightarrow> char" where
  "lower_char c =
     (case map_of (zip ''ABCDEFGHIJKLMNOPQRSTUVWXYZ'' ''abcdefghijklmnopqrstuvwxyz'') c of
        None \<Rightarrow> c
      | Some d \<Rightarrow> d)"

definition ToLower :: "string \<Rightarrow> string" where
  "ToLower s = map lower_char s"

text \<open>
  \<^verbatim>\<open>Paths.Find\<close>: the direct lookup of the key. The source calls it only with keys it
  has read from the same map.
\<close>

definition Find :: "(string \<times> PathItem) list \<Rightarrow> string \<Rightarrow> PathItem option" where
  "Find paths key = map_of paths key"

text \<open>
  \<^verbatim>\<open>PathItem.Operations\<close>: the map from the upper-case method name to the operation,
  for the nine methods a path item can declare, those that are set.
\<close>

definition Operations :: "PathItem \<Rightarrow> (string \<times> Operation) list" where
  "Operations item =
     concat (map (\<lambda>(m, v). case v of None \<Rightarrow> [] | Some operation \<Rightarrow> [(m, operation)])
       [(''CONNECT'', PathItem_Connect item),
        (''DELETE'', PathItem_Delete item),
        (''GET'', PathItem_Get item),
        (''HEAD'', PathItem_Head item),
        (''OPTIONS'', PathItem_Options item),
        (''PATCH'', PathItem_Patch item),
        (''POST'', PathItem_Post item),
        (''PUT'', PathItem_Put item),
        (''TRACE'', PathItem_Trace item)])"

section \<open>The output model\<close>

record Info =
  Title :: string
  Version :: string
  Description :: string

record Parameter =
  Parent :: string
  Name :: string
  Location :: string
  DataType :: string
  Required :: bool
  Description :: string

record ResourceContent =
  RqHeader :: "Parameter list"
  RqPath :: "Parameter list"
  RqQuery :: "Parameter list"
  RqBody :: "string \<rightharpoonup> Parameter list"
  RqBodyExample :: "string \<rightharpoonup> (string \<rightharpoonup> string)"
  RsHeader :: "Parameter list"
  RsBody :: "string \<rightharpoonup> Parameter list"
  RsBodyExample :: "string \<rightharpoonup> (string \<rightharpoonup> string)"

record Resource =
  ResourceDefinition :: string
  Description :: string
  Endpoint :: string
  TransportProtocol :: string
  RequestVerb :: string
  ResourceContent :: ResourceContent

record Design =
  Info :: Info
  Resources :: "Resource list"

text \<open>The value of \<^verbatim>\<open>new(Parameter)\<close> and of \<^verbatim>\<open>new(Resource)\<close>: every field zero.\<close>

definition new_Parameter :: Parameter where
  "new_Parameter =
     \<lparr>Parent = [], Name = [], Location = [], DataType = [], Required = False,
      Description = []\<rparr>"

definition new_ResourceContent :: ResourceContent where
  "new_ResourceContent =
     \<lparr>RqHeader = [], RqPath = [], RqQuery = [], RqBody = Map.empty,
      RqBodyExample = Map.empty, RsHeader = [], RsBody = Map.empty,
      RsBodyExample = Map.empty\<rparr>"

definition new_Resource :: Resource where
  "new_Resource =
     \<lparr>ResourceDefinition = [], Description = [], Endpoint = [], TransportProtocol = [],
      RequestVerb = [], ResourceContent = new_ResourceContent\<rparr>"

section \<open>Parameter extractors\<close>

definition getAuthentication :: "Swagger \<Rightarrow> Parameter list" where
  "getAuthentication swagger =
     map (\<lambda>(key, value).
            new_Parameter
              \<lparr>Name := SecurityScheme_Name value,
               Location := SecurityScheme_In value,
               DataType := SecurityScheme_Type value,
               Required := True,
               Parameter.Description := SecurityScheme_Description value\<rparr>)
       (Swagger_SecuritySchemes swagger)"

text \<open>
  The \<^verbatim>\<open>switch strings.ToLower(method)\<close> that every extractor below starts with. The
  cases \<^verbatim>\<open>get\<close>, \<^verbatim>\<open>post\<close>, \<^verbatim>\<open>put\<close>, \<^verbatim>\<open>patch\<close> and \<^verbatim>\<open>delete\<close> read a field
  of the operation through \<^verbatim>\<open>pathItem\<close> and through the method's operation pointer,
  and panic when one of the two is nil; the default case returns nil and reads neither.
  The result is \<open>None\<close> for the panic, \<open>Some None\<close> for the default case and
  \<open>Some (Some operation)\<close> otherwise.
\<close>

definition switch_method :: "PathItem option \<Rightarrow> string \<Rightarrow> Operation option option" where
  "switch_method pathItem method =
     (let m = ToLower method;
          field =
            (if m = ''get'' then Some PathItem_Get
             else if m = ''post'' then Some PathItem_Post
             else if m = ''put'' then Some PathItem_Put
             else if m = ''patch'' then Some PathItem_Patch
             else if m = ''delete'' then Some PathItem_Delete
             else None)
      in case field of
           None \<Rightarrow> Some None
         | Some f \<Rightarrow>
             (case pathItem of
                None \<Rightarrow> None
              | Some item \<Rightarrow>
                  (case f item of
                     None \<Rightarrow> None
                   | Some operation \<Rightarrow> Some (Some operation))))"

definition getPathParameter :: "Swagger \<Rightarrow> string \<Rightarrow> Parameter list option" where
  "getPathParameter swagger endpoint =
     (case Find (Swagger_Paths swagger) endpoint of
        None \<Rightarrow> None
      | Some pathItem \<Rightarrow>
          those (map (\<lambda>value.
                   case Parameter_Schema value of
                     None \<Rightarrow> None
                   | Some schema \<Rightarrow>
                       Some (new_Parameter
                         \<lparr>Name := Parameter_Name value,
                          Location := Parameter_In value,
                          DataType := Schema_Type schema,
                          Required := Parameter_Required value,
                          Parameter.Description := Parameter_Description value\<rparr>))
                 (PathItem_Parameters pathItem)))"

definition getParameter ::
  "Swagger \<Rightarrow> string \<Rightarrow> string \<Rightarrow> string \<Rightarrow> Parameter list option" where
  "getParameter swagger endpoint method location =
     (case switch_method (Find (Swagger_Paths swagger) endpoint) method of
        None \<Rightarrow> None
      | Some None \<Rightarrow> Some []
      | Some (Some operation) \<Rightarrow>
          those (map (\<lambda>value.
                   case Parameter_Schema value of
                     None \<Rightarrow> None
                   | Some schema \<Rightarrow>
                       Some (new_Parameter
                         \<lparr>Name := Parameter_Name value,
                          Location := ToLower (Parameter_In value),
                          DataType := ToLower (Schema_Type schema),
                          Required := Parameter_Required value,
                          Parameter.Description := Parameter_Description value\<rparr>))
                 (filter (\<lambda>value. ToLower (Parameter_In value) = ToLower location)
                    (Operation_Parameters operation))))"

section \<open>The schema flattening engine\<close>

fun contains :: "string list \<Rightarrow> string \<Rightarrow> bool" where
  "contains [] key = False"
| "contains (value # array) key = (if value = key then True else contains array key)"

definition setNode :: "Schema \<Rightarrow> store \<Rightarrow> Parameter" where
  "setNode schema h =
     new_Parameter
       \<lparr>Name := Schema_Title (h (Schema_ptr schema)),
        DataType := ToLower (Schema_Type schema),
        Location := ''body'',
        Required := \<not> Schema_Nullable (h (Schema_ptr schema)),
        Parameter.Description := Schema_Description schema\<rparr>"

definition setPlain :: "Schema \<Rightarrow> store \<Rightarrow> Parameter" where
  "setPlain schema h =
     new_Parameter
       \<lparr>Name := Schema_Title (h (Schema_ptr schema)),
        DataType := ToLower (Schema_Type schema),
        Location := ''body'',
        Required := \<not> Schema_Nullable (h (Schema_ptr schema)),
        Parameter.Description := Schema_Description schema\<rparr>"

subsection \<open>The two loops over the properties\<close>

text \<open>
  The first loop of \<^verbatim>\<open>traverse\<close> over \<^verbatim>\<open>Properties\<close> writes the key and the
  required flag into every property and collects the properties in a slice.
\<close>

fun setProperties :: "string list \<Rightarrow> (string \<times> Schema) list \<Rightarrow> store \<Rightarrow> store" where
  "setProperties required [] h = h"
| "setProperties required ((key, property) # rest) h =
     setProperties required rest
       (h(Schema_ptr property :=
            \<lparr>Schema_Title = key, Schema_Nullable = \<not> contains required key\<rparr>))"

text \<open>
  \<^verbatim>\<open>sort.Slice\<close> of the Go library, with the closure of the source as \<open>lessf\<close>. The
  closure reads the slice at the time of the call, so \<open>lessf\<close> takes the slice. On a
  slice of at most twelve elements \<^verbatim>\<open>sort.Slice\<close> is the insertion sort below (Go
  1.19 and later; earlier versions permute the slice by one more pass before it). On a
  longer slice the library runs a quicksort that splits the slice by calls of the same
  closure and finishes the pieces with this insertion sort. The model is the insertion
  sort for every length: beyond twelve properties it may order the properties inside the
  two groups that the closure tells apart in another way than the library does. The
  order that reaches \<^verbatim>\<open>sort.Slice\<close> is that of a map iteration, and the theorems hold
  for every such order.
\<close>

definition swap :: "'a list \<Rightarrow> nat \<Rightarrow> nat \<Rightarrow> 'a list" where
  "swap data i j = data[i := data ! j, j := data ! i]"

fun insertionLoop :: "('a list \<Rightarrow> nat \<Rightarrow> nat \<Rightarrow> bool) \<Rightarrow> 'a list \<Rightarrow> nat \<Rightarrow> 'a list" where
  "insertionLoop lessf data 0 = data"
| "insertionLoop lessf data (Suc j) =
     (if lessf data (Suc j) j then insertionLoop lessf (swap data (Suc j) j) j else data)"

definition insertionSort :: "('a list \<Rightarrow> nat \<Rightarrow> nat \<Rightarrow> bool) \<Rightarrow> 'a list \<Rightarrow> 'a list" where
  "insertionSort lessf data = fold (\<lambda>i d. insertionLoop lessf d i) [1..<length data] data"

definition properties_less :: "Schema list \<Rightarrow> nat \<Rightarrow> nat \<Rightarrow> bool" where
  "properties_less properties i j =
     (if Schema_Type (properties ! i) = ''object'' \<or> Schema_Type (properties ! i) = ''array''
      then False else True)"

definition sort_Slice :: "Schema list \<Rightarrow> Schema list" where
  "sort_Slice properties = insertionSort properties_less properties"

text \<open>
  What the closure of the source tells apart: a property whose type tag is exactly
  \<^verbatim>\<open>object\<close> or \<^verbatim>\<open>array\<close>, and every other property.
\<close>

definition composite :: "Schema \<Rightarrow> bool" where
  "composite p = (Schema_Type p = ''object'' \<or> Schema_Type p = ''array'')"

lemma insertionLoop_scalar:
  "j < length xs \<Longrightarrow> \<not> composite (xs ! j) \<Longrightarrow>
   insertionLoop properties_less xs j = (xs ! j) # take j xs @ drop (Suc j) xs"
proof (induction j arbitrary: xs)
  case 0
  then show ?case by (cases xs) simp_all
next
  case (Suc j)
  let ?ys = "swap xs (Suc j) j"
  have len: "j < length ?ys" using Suc.prems by (simp add: swap_def)
  have at: "?ys ! j = xs ! Suc j" using Suc.prems by (simp add: swap_def)
  have tk: "take j ?ys = take j xs" by (simp add: swap_def)
  have dr: "drop (Suc j) ?ys = xs ! j # drop (Suc (Suc j)) xs"
    using Suc.prems by (simp add: swap_def drop_update_swap Cons_nth_drop_Suc[symmetric] upd_conv_take_nth_drop)
  have "insertionLoop properties_less xs (Suc j) = insertionLoop properties_less ?ys j"
    using Suc.prems by (simp add: properties_less_def composite_def)
  also have "\<dots> = (?ys ! j) # take j ?ys @ drop (Suc j) ?ys"
    using Suc.IH[OF len] at Suc.prems by simp
  also have "\<dots> = xs ! Suc j # take (Suc j) xs @ drop (Suc (Suc j)) xs"
    using Suc.prems by (simp add: at tk dr take_Suc_conv_app_nth)
  finally show ?case .
qed

lemma insertionLoop_composite:
  "composite (xs ! j) \<Longrightarrow> insertionLoop properties_less xs j = xs"
  by (cases j) (simp_all add: properties_less_def composite_def)

lemma insertion_prefix:
  "0 < i \<Longrightarrow> i \<le> length xs \<Longrightarrow>
   fold (\<lambda>i d. insertionLoop properties_less d i) [1..<i] xs =
     rev (filter (\<lambda>p. \<not> composite p) (take i xs)) @ filter composite (take i xs) @ drop i xs"
proof (induction i)
  case 0
  then show ?case by simp
next
  case (Suc i)
  show ?case
  proof (cases "i = 0")
    case True
    then show ?thesis using Suc.prems by (cases xs) auto
  next
    case False
    let ?S = "filter (\<lambda>p. \<not> composite p) (take i xs)"
    let ?C = "filter composite (take i xs)"
    let ?L = "rev ?S @ ?C @ drop i xs"
    have i: "i < length xs" using Suc.prems by simp
    have IH: "fold (\<lambda>i d. insertionLoop properties_less d i) [1..<i] xs = ?L"
      using Suc.IH False i by simp
    have lenSC: "length (rev ?S @ ?C) = i"
      using i sum_length_filter_compl[of "\<lambda>p. \<not> composite p" "take i xs"] by simp
    have Li: "?L ! i = xs ! i"
      using lenSC i by (metis append.assoc nth_append_length Cons_nth_drop_Suc)
    have lenL: "i < length ?L" using lenSC i by simp
    have tkL: "take i ?L = rev ?S @ ?C" using lenSC by (metis append.assoc append_eq_conv_conj)
    have drL: "drop (Suc i) ?L = drop (Suc i) xs"
      using lenSC i
      by (metis append.assoc append_eq_conv_conj drop_Suc tl_drop)
    have "fold (\<lambda>i d. insertionLoop properties_less d i) [1..<Suc i] xs
            = insertionLoop properties_less ?L i"
      using False IH by simp
    also have "\<dots> = rev (filter (\<lambda>p. \<not> composite p) (take (Suc i) xs)) @
                    filter composite (take (Suc i) xs) @ drop (Suc i) xs"
    proof (cases "composite (xs ! i)")
      case True
      then have "insertionLoop properties_less ?L i = ?L"
        using insertionLoop_composite Li by metis
      then show ?thesis using True i
        by (simp add: take_Suc_conv_app_nth Cons_nth_drop_Suc)
    next
      case F: False
      then have "insertionLoop properties_less ?L i = (?L ! i) # take i ?L @ drop (Suc i) ?L"
        using insertionLoop_scalar[OF lenL] Li by metis
      then show ?thesis using F i Li tkL drL
        by (simp add: take_Suc_conv_app_nth)
    qed
    finally show ?thesis .
  qed
qed

lemma sort_Slice_eq:
  "sort_Slice ps = rev (filter (\<lambda>p. \<not> composite p) ps) @ filter composite ps"
proof (cases "ps = []")
  case True
  then show ?thesis by (simp add: sort_Slice_def insertionSort_def)
next
  case False
  then show ?thesis
    using insertion_prefix[of "length ps" ps] by (simp add: sort_Slice_def insertionSort_def)
qed


subsection \<open>The recursion\<close>

text \<open>
  \<^verbatim>\<open>traverse\<close> and its second loop, which appends the records of every property in
  the sorted order. The store is passed along: the first loop writes into it, and
  \<^verbatim>\<open>setNode\<close> and \<^verbatim>\<open>setPlain\<close> read from it.
\<close>

lemma size_list_sort_Slice: "size_list f (sort_Slice ps) = size_list f ps"
  unfolding sort_Slice_eq by (induction ps) auto

lemma size_list_map_snd:
  "size_list size (map snd ps) \<le> size_list (size_prod (\<lambda>_. 0) size) ps"
  by (induction ps) auto

function traverse :: "Schema \<Rightarrow> string \<Rightarrow> store \<Rightarrow> (Parameter list \<times> store) option"
  and traverse_properties ::
    "Schema list \<Rightarrow> string \<Rightarrow> store \<Rightarrow> (Parameter list \<times> store) option"
where
  "traverse schema parent h =
     (let t = ToLower (Schema_Type schema) in
      if t = ''object'' then
        (let parameter = (setNode schema h)\<lparr>Parent := parent\<rparr>;
             h1 = setProperties (Schema_Required schema) (Schema_Properties schema) h;
             properties = sort_Slice (map snd (Schema_Properties schema))
         in case traverse_properties properties (Name parameter) h1 of
              None \<Rightarrow> None
            | Some (parameters, h2) \<Rightarrow> Some (parameter # parameters, h2))
      else if t = ''array'' then
        (case Schema_Items schema of
           None \<Rightarrow> None
         | Some items \<Rightarrow>
             (let parameter =
                    (setNode schema h)
                      \<lparr>Parent := parent,
                       DataType := ''array['' @ Schema_Type items @ '']''\<rparr>
              in if Schema_Type items = ''object'' then
                   (let h1 = setProperties (Schema_Required items) (Schema_Properties items) h;
                        properties = sort_Slice (map snd (Schema_Properties items))
                    in case traverse_properties properties (Name parameter) h1 of
                         None \<Rightarrow> None
                       | Some (parameters, h2) \<Rightarrow> Some (parameter # parameters, h2))
                 else Some ([parameter], h)))
      else if t = ''string'' \<or> t = ''number'' \<or> t = ''integer'' \<or> t = ''boolean'' then
        Some ([(setPlain schema h)\<lparr>Parent := parent\<rparr>], h)
      else Some ([], h))"
| "traverse_properties [] parent h = Some ([], h)"
| "traverse_properties (property # properties) parent h =
     (case traverse property parent h of
        None \<Rightarrow> None
      | Some (parameters, h1) \<Rightarrow>
          (case traverse_properties properties parent h1 of
             None \<Rightarrow> None
           | Some (rest, h2) \<Rightarrow> Some (parameters @ rest, h2)))"
  by pat_completeness auto

termination
proof (relation "measure (\<lambda>x. case x of
          Inl (schema, parent, h) \<Rightarrow> 2 * size schema
        | Inr (properties, parent, h) \<Rightarrow> 2 * size_list size properties + 1)")
  show "wf (measure (\<lambda>x. case x of
          Inl (schema, parent, h) \<Rightarrow> 2 * size schema
        | Inr (properties, parent, h) \<Rightarrow> 2 * size_list size properties + 1))"
    by simp
next
  fix schema :: Schema and parent :: string and h :: store and x xa xb xc
  assume "xc = sort_Slice (map snd (Schema_Properties schema))"
  then show "(Inr (xc, Name xa, xb), Inl (schema, parent, h)) \<in> measure (\<lambda>x. case x of
          Inl (schema, parent, h) \<Rightarrow> 2 * size schema
        | Inr (properties, parent, h) \<Rightarrow> 2 * size_list size properties + 1)"
    using size_list_map_snd[of "Schema_Properties schema"]
    by (cases schema) (simp add: size_list_sort_Slice)
next
  fix schema :: Schema and parent :: string and h :: store and x x2 xa xb xc
  assume "Schema_Items schema = Some x2" "xc = sort_Slice (map snd (Schema_Properties x2))"
  then show "(Inr (xc, Name xa, xb), Inl (schema, parent, h)) \<in> measure (\<lambda>x. case x of
          Inl (schema, parent, h) \<Rightarrow> 2 * size schema
        | Inr (properties, parent, h) \<Rightarrow> 2 * size_list size properties + 1)"
    using size_list_map_snd[of "Schema_Properties x2"]
    by (cases schema; cases x2) (simp add: size_list_sort_Slice)
qed auto


section \<open>Body and example extractors\<close>

text \<open>
  The loop \<^verbatim>\<open>for key, value := range Content { content[key] = traverse(value.Schema, "root") }\<close>
  of \<^verbatim>\<open>getRqBody\<close> and \<^verbatim>\<open>getRsBody\<close>. A media type without a schema makes
  \<^verbatim>\<open>traverse\<close> read through a nil pointer.
\<close>

fun traverse_content ::
  "(string \<times> MediaType) list \<Rightarrow> (string \<rightharpoonup> Parameter list) \<Rightarrow> store \<Rightarrow>
   ((string \<rightharpoonup> Parameter list) \<times> store) option" where
  "traverse_content [] content h = Some (content, h)"
| "traverse_content ((key, value) # rest) content h =
     (case MediaType_Schema value of
        None \<Rightarrow> None
      | Some schema \<Rightarrow>
          (case traverse schema ''root'' h of
             None \<Rightarrow> None
           | Some (parameters, h1) \<Rightarrow> traverse_content rest (content(key \<mapsto> parameters)) h1))"

definition getRqBody ::
  "Swagger \<Rightarrow> string \<Rightarrow> string \<Rightarrow> store \<Rightarrow> ((string \<rightharpoonup> Parameter list) \<times> store) option" where
  "getRqBody swagger endpoint method h =
     (case switch_method (Find (Swagger_Paths swagger) endpoint) method of
        None \<Rightarrow> None
      | Some None \<Rightarrow> Some (Map.empty, h)
      | Some (Some operation) \<Rightarrow>
          (case Operation_RequestBody operation of
             None \<Rightarrow> Some (Map.empty, h)
           | Some body \<Rightarrow> traverse_content (RequestBody_Content body) Map.empty h))"

text \<open>
  The inner loop of the example extractors: \<^verbatim>\<open>exampleItem[key] = string(marshalled)\<close>
  for every example. The assignment of \<^verbatim>\<open>exampleItem\<close> to the outer map stands inside
  that loop, so an outer key is set only where there is an example.
\<close>

definition exampleItems :: "(string \<times> string) list \<Rightarrow> (string \<rightharpoonup> string)" where
  "exampleItems examples = fold (\<lambda>(key, marshalled) item. item(key \<mapsto> marshalled)) examples Map.empty"

definition getRqBodyExample ::
  "Swagger \<Rightarrow> string \<Rightarrow> string \<Rightarrow> (string \<rightharpoonup> (string \<rightharpoonup> string)) option" where
  "getRqBodyExample swagger endpoint method =
     (case switch_method (Find (Swagger_Paths swagger) endpoint) method of
        None \<Rightarrow> None
      | Some None \<Rightarrow> Some Map.empty
      | Some (Some operation) \<Rightarrow>
          (case Operation_RequestBody operation of
             None \<Rightarrow> Some Map.empty
           | Some body \<Rightarrow>
               Some (fold (\<lambda>(contentType, value) example.
                             if MediaType_Examples value = [] then example
                             else example(contentType \<mapsto> exampleItems (MediaType_Examples value)))
                       (RequestBody_Content body) Map.empty)))"

definition getRsHeader :: "Swagger \<Rightarrow> string \<Rightarrow> string \<Rightarrow> Parameter list option" where
  "getRsHeader swagger endpoint method =
     (case switch_method (Find (Swagger_Paths swagger) endpoint) method of
        None \<Rightarrow> None
      | Some None \<Rightarrow> Some []
      | Some (Some operation) \<Rightarrow>
          (case map_of (Operation_Responses operation) ''200'' of
             None \<Rightarrow> None
           | Some response \<Rightarrow>
               those (map (\<lambda>(name, header).
                        case Header_Schema header of
                          None \<Rightarrow> None
                        | Some schema \<Rightarrow>
                            Some (new_Parameter
                              \<lparr>Name := name,
                               Location := ''header'',
                               DataType := Schema_Type schema,
                               Required := Header_Required header,
                               Parameter.Description := Header_Description header\<rparr>))
                      (Response_Headers response))))"

definition getRsBody ::
  "Swagger \<Rightarrow> string \<Rightarrow> string \<Rightarrow> store \<Rightarrow> ((string \<rightharpoonup> Parameter list) \<times> store) option" where
  "getRsBody swagger endpoint method h =
     (case switch_method (Find (Swagger_Paths swagger) endpoint) method of
        None \<Rightarrow> None
      | Some None \<Rightarrow> Some (Map.empty, h)
      | Some (Some operation) \<Rightarrow>
          (case map_of (Operation_Responses operation) ''200'' of
             None \<Rightarrow> Some (Map.empty, h)
           | Some body \<Rightarrow> traverse_content (Response_Content body) Map.empty h))"

definition getRsBodyExample ::
  "Swagger \<Rightarrow> string \<Rightarrow> string \<Rightarrow> (string \<rightharpoonup> (string \<rightharpoonup> string)) option" where
  "getRsBodyExample swagger endpoint method =
     (case switch_method (Find (Swagger_Paths swagger) endpoint) method of
        None \<Rightarrow> None
      | Some None \<Rightarrow> Some Map.empty
      | Some (Some operation) \<Rightarrow>
          Some (fold (\<lambda>(httpCode, value) example.
                        let examples = concat (map (\<lambda>(contentType, value). MediaType_Examples value)
                                                 (Response_Content value))
                        in if examples = [] then example
                           else example(httpCode \<mapsto> exampleItems examples))
                  (Operation_Responses operation) Map.empty))"

section \<open>Resource and design assemblers\<close>

definition getResource :: "Swagger \<Rightarrow> Resource list" where
  "getResource swagger =
     concat (map (\<lambda>(path, value).
               map (\<lambda>(method, value).
                      new_Resource
                        \<lparr>ResourceDefinition := Operation_Summary value,
                         Resource.Description := Operation_Description value,
                         Endpoint := path,
                         TransportProtocol := ''HTTPS'',
                         RequestVerb := ToLower method\<rparr>)
                 (Operations value))
            (Swagger_Paths swagger))"

text \<open>The body of the loop of \<^verbatim>\<open>getResourceContent\<close>, for one resource.\<close>

definition fillResource :: "Swagger \<Rightarrow> Resource \<Rightarrow> store \<Rightarrow> (Resource \<times> store) option" where
  "fillResource swagger resource h =
     (let rqAuth = getAuthentication swagger;
          content = ResourceContent resource;
          authHeader = RqHeader content @ filter (\<lambda>parameter. Location parameter = ''header'') rqAuth;
          authQuery = RqQuery content @ filter (\<lambda>parameter. Location parameter = ''query'') rqAuth
      in case getPathParameter swagger (Endpoint resource) of
           None \<Rightarrow> None
         | Some rqPath \<Rightarrow>
      (case getParameter swagger (Endpoint resource) (RequestVerb resource) ''header'' of
           None \<Rightarrow> None
         | Some rqHeader \<Rightarrow>
      (case getParameter swagger (Endpoint resource) (RequestVerb resource) ''query'' of
           None \<Rightarrow> None
         | Some rqQuery \<Rightarrow>
      (case getRqBody swagger (Endpoint resource) (RequestVerb resource) h of
           None \<Rightarrow> None
         | Some (rqBody, h1) \<Rightarrow>
      (case getRqBodyExample swagger (Endpoint resource) (RequestVerb resource) of
           None \<Rightarrow> None
         | Some rqBodyExample \<Rightarrow>
      (case getRsHeader swagger (Endpoint resource) (RequestVerb resource) of
           None \<Rightarrow> None
         | Some rsHeader \<Rightarrow>
      (case getRsBody swagger (Endpoint resource) (RequestVerb resource) h1 of
           None \<Rightarrow> None
         | Some (rsBody, h2) \<Rightarrow>
      (case getRsBodyExample swagger (Endpoint resource) (RequestVerb resource) of
           None \<Rightarrow> None
         | Some rsBodyExample \<Rightarrow>
             Some (resource
                     \<lparr>ResourceContent :=
                        \<lparr>RqHeader = authHeader @ rqHeader,
                         RqPath = RqPath content @ rqPath,
                         RqQuery = authQuery @ rqQuery,
                         RqBody = rqBody,
                         RqBodyExample = rqBodyExample,
                         RsHeader = rsHeader,
                         RsBody = rsBody,
                         RsBodyExample = rsBodyExample\<rparr>\<rparr>, h2)))))))))"

fun getResourceContent ::
  "Swagger \<Rightarrow> Resource list \<Rightarrow> store \<Rightarrow> (Resource list \<times> store) option" where
  "getResourceContent swagger [] h = Some ([], h)"
| "getResourceContent swagger (resource # resources) h =
     (case fillResource swagger resource h of
        None \<Rightarrow> None
      | Some (filled, h1) \<Rightarrow>
          (case getResourceContent swagger resources h1 of
             None \<Rightarrow> None
           | Some (rest, h2) \<Rightarrow> Some (filled # rest, h2)))"

definition getInfo :: "Swagger \<Rightarrow> Info option" where
  "getInfo swagger =
     (case Swagger_Info swagger of
        None \<Rightarrow> None
      | Some info \<Rightarrow>
          Some \<lparr>Title = Info_Title info, Version = Info_Version info,
                Description = Info_Description info\<rparr>)"

definition Transform :: "Swagger \<Rightarrow> store \<Rightarrow> (Design \<times> store) option" where
  "Transform swagger h =
     (case getInfo swagger of
        None \<Rightarrow> None
      | Some info \<Rightarrow>
          (case getResourceContent swagger (getResource swagger) h of
             None \<Rightarrow> None
           | Some (resources, h1) \<Rightarrow> Some (\<lparr>Info = info, Resources = resources\<rparr>, h1)))"

section \<open>Example documents\<close>

definition string_schema :: "addr \<Rightarrow> Schema" where
  "string_schema a = Schema a ''string'' [] [] [] None"

definition plain_operation :: Operation where
  "plain_operation =
     \<lparr>Operation_Summary = ''list'', Operation_Description = [], Operation_Parameters = [],
      Operation_RequestBody = None,
      Operation_Responses = [(''200'', \<lparr>Response_Headers = [], Response_Content = []\<rparr>)]\<rparr>"

definition no_operations :: PathItem where
  "no_operations =
     \<lparr>PathItem_Connect = None, PathItem_Delete = None, PathItem_Get = None,
      PathItem_Head = None, PathItem_Options = None, PathItem_Patch = None,
      PathItem_Post = None, PathItem_Put = None, PathItem_Trace = None,
      PathItem_Parameters = []\<rparr>"

definition api_info :: InfoObject where
  "api_info = \<lparr>Info_Title = ''pets'', Info_Version = ''1'', Info_Description = []\<rparr>"

text \<open>Two paths, the first with \<^verbatim>\<open>GET\<close> and \<^verbatim>\<open>HEAD\<close>, the second with \<^verbatim>\<open>POST\<close>.\<close>

definition two_paths :: Swagger where
  "two_paths =
     \<lparr>Swagger_Info = Some api_info,
      Swagger_Paths =
        [(''/pets'', no_operations\<lparr>PathItem_Get := Some plain_operation,
                                   PathItem_Head := Some plain_operation\<rparr>),
         (''/pets/{id}'', no_operations\<lparr>PathItem_Post := Some plain_operation\<rparr>)],
      Swagger_SecuritySchemes = []\<rparr>"

section \<open>The resource assembler\<close>

text \<open>The lower-case names of the nine methods that a path item can declare.\<close>

definition verbs :: "string list" where
  "verbs = [''connect'', ''delete'', ''get'', ''head'', ''options'', ''patch'', ''post'', ''put'', ''trace'']"


text \<open>
  The combinations of a path and a method declared on it, the method in lower case, as
  the spec counts them.
\<close>

definition declared :: "Swagger \<Rightarrow> (string \<times> string) list" where
  "declared swagger =
     concat (map (\<lambda>(path, item). map (\<lambda>(method, operation). (path, ToLower method)) (Operations item))
               (Swagger_Paths swagger))"

lemma mem_present:
  "(m, x) \<in> set (concat (map (\<lambda>(m, v). case v of None \<Rightarrow> [] | Some x \<Rightarrow> [(m, x)]) xs)) \<Longrightarrow>
   (m, Some x) \<in> set xs"
  by (induction xs) (auto split: option.splits)

lemma set_present:
  "set (map (f \<circ> fst) (concat (map (\<lambda>(m, v). case v of None \<Rightarrow> [] | Some x \<Rightarrow> [(m, x)]) xs)))
     \<subseteq> set (map (f \<circ> fst) xs)"
proof
  fix y
  assume "y \<in> set (map (f \<circ> fst) (concat (map (\<lambda>(m, v). case v of None \<Rightarrow> [] | Some x \<Rightarrow> [(m, x)]) xs)))"
  then obtain m x where "(m, x) \<in> set (concat (map (\<lambda>(m, v). case v of None \<Rightarrow> [] | Some x \<Rightarrow> [(m, x)]) xs))"
    and y: "y = f m" by auto
  then have "(m, Some x) \<in> set xs" using mem_present by fast
  then show "y \<in> set (map (f \<circ> fst) xs)" using y by force
qed

lemma distinct_present:
  "distinct (map (f \<circ> fst) xs) \<Longrightarrow>
   distinct (map (f \<circ> fst) (concat (map (\<lambda>(m, v). case v of None \<Rightarrow> [] | Some x \<Rightarrow> [(m, x)]) xs)))"
proof (induction xs)
  case Nil
  then show ?case by simp
next
  case (Cons a xs)
  obtain m v where a: "a = (m, v)" by (cases a)
  show ?case
  proof (cases v)
    case None
    then show ?thesis using Cons a by simp
  next
    case (Some x)
    have "f m \<notin> set (map (f \<circ> fst) xs)" using Cons.prems a by simp
    then have "f m \<notin> set (map (f \<circ> fst) (concat (map (\<lambda>(m, v). case v of None \<Rightarrow> [] | Some x \<Rightarrow> [(m, x)]) xs)))"
      using set_present[of f xs] by blast
    then show ?thesis using Cons a Some by simp
  qed
qed

lemma ToLower_simps [simp]:
  "ToLower [] = []"
  "ToLower (c # cs) = lower_char c # ToLower cs"
  by (simp_all add: ToLower_def)

lemma Operations_verbs: "set (map (ToLower \<circ> fst) (Operations item)) \<subseteq> set verbs"
proof -
  have "set (map (ToLower \<circ> fst) (Operations item)) \<subseteq> set (map (ToLower \<circ> fst) 
       [(''CONNECT'', PathItem_Connect item),
        (''DELETE'', PathItem_Delete item),
        (''GET'', PathItem_Get item),
        (''HEAD'', PathItem_Head item),
        (''OPTIONS'', PathItem_Options item),
        (''PATCH'', PathItem_Patch item),
        (''POST'', PathItem_Post item),
        (''PUT'', PathItem_Put item),
        (''TRACE'', PathItem_Trace item)])"
    unfolding Operations_def by (rule set_present)
  also have "\<dots> = set verbs" by (simp add: verbs_def lower_char_def)
  finally show ?thesis .
qed

lemma Operations_distinct: "distinct (map (ToLower \<circ> fst) (Operations item))"
  unfolding Operations_def
  by (rule distinct_present) (simp add: lower_char_def)

lemma getResource_keys:
  "map (\<lambda>r. (Endpoint r, RequestVerb r)) (getResource swagger) = declared swagger"
  unfolding getResource_def declared_def
  by (simp add: map_concat comp_def split_def new_Resource_def)

lemma declared_distinct:
  "distinct (map fst paths) \<Longrightarrow>
   distinct (concat (map (\<lambda>(path, item). map (\<lambda>(method, operation). (path, ToLower method)) (Operations item)) paths))"
proof (induction paths)
  case Nil
  then show ?case by simp
next
  case (Cons a paths)
  obtain path item where a: "a = (path, item)" by (cases a)
  have d: "distinct (map (\<lambda>(method, operation). (path, ToLower method)) (Operations item))"
    using Operations_distinct[of item]
    by (simp add: distinct_map comp_def case_prod_beta inj_on_def)
  have "path \<notin> fst ` set paths" using Cons.prems a by simp
  then have "set (map (\<lambda>(method, operation). (path, ToLower method)) (Operations item)) \<inter>
        set (concat (map (\<lambda>(path, item). map (\<lambda>(method, operation). (path, ToLower method)) (Operations item)) paths)) = {}"
    by (auto simp: image_iff) 
  then show ?case using Cons a d by simp
qed

lemma getResource_fields:
  "r \<in> set (getResource swagger) \<Longrightarrow>
     TransportProtocol r = ''HTTPS'' \<and> RequestVerb r \<in> set verbs \<and> ResourceContent r = new_ResourceContent"
  using Operations_verbs
  by (fastforce simp: getResource_def new_Resource_def)


text \<open>
  C8. \<^verbatim>\<open>getResource\<close> returns one Resource for every combination of a path and a
  method declared on that path, and no other: the list of (endpoint, verb) pairs of the
  result is the list of the declared combinations with the method in lower case, no
  pair occurs twice, the transport protocol of every Resource is \<^verbatim>\<open>HTTPS\<close>, and
  every verb is one of the nine methods a path item can hold, so a method outside
  these has no Resource. The keys of the Go map \<^verbatim>\<open>Paths\<close> are distinct.
\<close>

theorem getResource_one_per_declared_method:
  assumes "distinct (map fst (Swagger_Paths swagger))"
  shows "map (\<lambda>r. (Endpoint r, RequestVerb r)) (getResource swagger) = declared swagger
       \<and> distinct (declared swagger)
       \<and> (\<forall>r \<in> set (getResource swagger).
             TransportProtocol r = ''HTTPS'' \<and> RequestVerb r \<in> set verbs)"
proof (intro conjI ballI)
  show "map (\<lambda>r. (Endpoint r, RequestVerb r)) (getResource swagger) = declared swagger"
    by (rule getResource_keys)
  show "distinct (declared swagger)"
    unfolding declared_def using assms by (rule declared_distinct)
next
  fix r
  assume r: "r \<in> set (getResource swagger)"
  show "TransportProtocol r = ''HTTPS''" using getResource_fields[OF r] by simp
  show "RequestVerb r \<in> set verbs" using getResource_fields[OF r] by simp
qed

theorem getResource_one_per_declared_method_witness:
  "distinct (map fst (Swagger_Paths two_paths))
   \<and> map (\<lambda>r. (Endpoint r, RequestVerb r)) (getResource two_paths) =
       [(''/pets'', ''get''), (''/pets'', ''head''), (''/pets/{id}'', ''post'')]
   \<and> distinct (declared two_paths)"
proof -
  have d: "distinct (map fst (Swagger_Paths two_paths))"
    by (simp add: two_paths_def)
  have "declared two_paths = [(''/pets'', ''get''), (''/pets'', ''head''), (''/pets/{id}'', ''post'')]"
    by (simp add: declared_def two_paths_def Operations_def no_operations_def lower_char_def)
  then show ?thesis
    using d getResource_one_per_declared_method[OF d] by simp
qed

section \<open>Absent optional structures\<close>

text \<open>An operation with no parameters, no request body and no declared responses.\<close>

definition empty_operation :: Operation where
  "empty_operation =
     \<lparr>Operation_Summary = [], Operation_Description = [], Operation_Parameters = [],
      Operation_RequestBody = None, Operation_Responses = []\<rparr>"

definition empty_operation_document :: Swagger where
  "empty_operation_document =
     \<lparr>Swagger_Info = Some api_info,
      Swagger_Paths = [(''/pets'', no_operations\<lparr>PathItem_Get := Some empty_operation\<rparr>)],
      Swagger_SecuritySchemes = []\<rparr>"

lemma switch_get_empty_operation:
  "switch_method (Find (Swagger_Paths empty_operation_document) ''/pets'') ''get'' =
     Some (Some empty_operation)"
  by (simp add: switch_method_def Find_def empty_operation_document_def no_operations_def
      lower_char_def)

lemma fillResource_getRsHeader_None:
  "getRsHeader swagger (Endpoint resource) (RequestVerb resource) = None \<Longrightarrow>
   fillResource swagger resource h = None"
  by (simp add: fillResource_def Let_def split: option.splits prod.splits)

text \<open>The same operation under \<^verbatim>\<open>HEAD\<close>, a method outside the switch of the extractors.\<close>

definition head_document :: Swagger where
  "head_document =
     \<lparr>Swagger_Info = Some api_info,
      Swagger_Paths = [(''/pets'', no_operations\<lparr>PathItem_Head := Some empty_operation\<rparr>)],
      Swagger_SecuritySchemes = []\<rparr>"

lemma switch_head:
  "switch_method (Find (Swagger_Paths head_document) ''/pets'') ''head'' = Some None"
  by (simp add: switch_method_def lower_char_def)

lemma Transform_head:
  "Transform head_document h =
     Some (\<lparr>Info = \<lparr>Title = ''pets'', Version = ''1'', Description = []\<rparr>,
            Resources = [new_Resource\<lparr>Endpoint := ''/pets'', TransportProtocol := ''HTTPS'',
                                      RequestVerb := ''head''\<rparr>]\<rparr>, h)"
proof -
  have r: "getResource head_document =
     [new_Resource\<lparr>Endpoint := ''/pets'', TransportProtocol := ''HTTPS'', RequestVerb := ''head''\<rparr>]"
    by (simp add: getResource_def head_document_def Operations_def no_operations_def
        lower_char_def empty_operation_def new_Resource_def)
  have p: "getPathParameter head_document ''/pets'' = Some []"
    by (simp add: getPathParameter_def Find_def head_document_def no_operations_def)
  have g: "getParameter head_document ''/pets'' ''head'' l = Some []" for l
    by (simp add: getParameter_def switch_head)
  have q: "getRqBody head_document ''/pets'' ''head'' h = Some (Map.empty, h)" for h
    by (simp add: getRqBody_def switch_head)
  have e: "getRqBodyExample head_document ''/pets'' ''head'' = Some Map.empty"
    by (simp add: getRqBodyExample_def switch_head)
  have hd: "getRsHeader head_document ''/pets'' ''head'' = Some []"
    by (simp add: getRsHeader_def switch_head)
  have b: "getRsBody head_document ''/pets'' ''head'' h = Some (Map.empty, h)" for h
    by (simp add: getRsBody_def switch_head)
  have x: "getRsBodyExample head_document ''/pets'' ''head'' = Some Map.empty"
    by (simp add: getRsBodyExample_def switch_head)
  have i: "getInfo head_document = Some \<lparr>Title = ''pets'', Version = ''1'', Description = []\<rparr>"
    by (simp add: getInfo_def head_document_def api_info_def)
  have a: "getAuthentication head_document = []"
    by (simp add: getAuthentication_def head_document_def)
  have f: "fillResource head_document
             (new_Resource\<lparr>Endpoint := ''/pets'', TransportProtocol := ''HTTPS'', RequestVerb := ''head''\<rparr>) h =
           Some (new_Resource\<lparr>Endpoint := ''/pets'', TransportProtocol := ''HTTPS'', RequestVerb := ''head''\<rparr>, h)"
    by (simp add: fillResource_def Let_def a p g q e hd b x)
       (simp add: new_Resource_def new_ResourceContent_def)
  show ?thesis by (simp add: Transform_def i r f)
qed

text \<open>
  C1. The claim fails on the code. On the document whose only operation has no parameters,
  no request body and no declared responses, the parameter and body extractors return
  empty results, and \<^verbatim>\<open>getRsBody\<close> tests the response under \<^verbatim>\<open>"200"\<close> for nil
  before it reads it; \<^verbatim>\<open>getRsHeader\<close> reads \<^verbatim>\<open>Responses["200"].Value.Headers\<close>
  first and tests the headers for nil afterwards, so it panics, and \<^verbatim>\<open>Transform\<close> with
  it: no Resource is produced. Under a method outside the switch the same operation gives
  a Resource with every content field empty.
\<close>

theorem empty_operation_panics:
  "getResource empty_operation_document =
     [new_Resource\<lparr>Endpoint := ''/pets'', TransportProtocol := ''HTTPS'', RequestVerb := ''get''\<rparr>]
   \<and> getParameter empty_operation_document ''/pets'' ''get'' ''header'' = Some []
   \<and> getRqBody empty_operation_document ''/pets'' ''get'' h = Some (Map.empty, h)
   \<and> getRsBody empty_operation_document ''/pets'' ''get'' h = Some (Map.empty, h)
   \<and> getRsHeader empty_operation_document ''/pets'' ''get'' = None
   \<and> Transform empty_operation_document h = None
   \<and> Transform head_document h =
       Some (\<lparr>Info = \<lparr>Title = ''pets'', Version = ''1'', Description = []\<rparr>,
              Resources = [new_Resource\<lparr>Endpoint := ''/pets'', TransportProtocol := ''HTTPS'',
                                        RequestVerb := ''head''\<rparr>]\<rparr>, h)"
proof -
  have r: "getResource empty_operation_document =
     [new_Resource\<lparr>Endpoint := ''/pets'', TransportProtocol := ''HTTPS'', RequestVerb := ''get''\<rparr>]"
    by (simp add: getResource_def empty_operation_document_def Operations_def no_operations_def
        lower_char_def empty_operation_def new_Resource_def)
  have p: "getParameter empty_operation_document ''/pets'' ''get'' ''header'' = Some []"
    by (simp add: getParameter_def switch_get_empty_operation) (simp add: empty_operation_def)
  have q: "getRqBody empty_operation_document ''/pets'' ''get'' h = Some (Map.empty, h)"
    by (simp add: getRqBody_def switch_get_empty_operation) (simp add: empty_operation_def)
  have b: "getRsBody empty_operation_document ''/pets'' ''get'' h = Some (Map.empty, h)"
    by (simp add: getRsBody_def switch_get_empty_operation) (simp add: empty_operation_def)
  have hd: "getRsHeader empty_operation_document ''/pets'' ''get'' = None"
    by (simp add: getRsHeader_def switch_get_empty_operation) (simp add: empty_operation_def)
  have "fillResource empty_operation_document
          (new_Resource\<lparr>Endpoint := ''/pets'', TransportProtocol := ''HTTPS'', RequestVerb := ''get''\<rparr>) h = None"
    by (rule fillResource_getRsHeader_None) (simp add: hd)
  then have "Transform empty_operation_document h = None"
    by (simp add: Transform_def r split: option.splits)
  then show ?thesis using r p q b hd Transform_head by simp
qed

section \<open>Properties of the flattening engine\<close>

text \<open>The equation of \<^verbatim>\<open>traverse\<close> is used case by case.\<close>

declare traverse.simps(1) [simp del]

lemma Name_setNode [simp]:
  "Name (setNode schema h) = Schema_Title (h (Schema_ptr schema))"
  by (simp add: setNode_def new_Parameter_def)

lemma traverse_object:
  "ToLower (Schema_Type schema) = ''object'' \<Longrightarrow>
   traverse schema parent h =
     (case traverse_properties (sort_Slice (map snd (Schema_Properties schema)))
             (Schema_Title (h (Schema_ptr schema)))
             (setProperties (Schema_Required schema) (Schema_Properties schema) h) of
        None \<Rightarrow> None
      | Some (parameters, h2) \<Rightarrow> Some ((setNode schema h)\<lparr>Parent := parent\<rparr> # parameters, h2))"
  by (simp add: traverse.simps(1) Let_def)

lemma traverse_array_object:
  "ToLower (Schema_Type schema) = ''array'' \<Longrightarrow> Schema_Items schema = Some items \<Longrightarrow>
   Schema_Type items = ''object'' \<Longrightarrow>
   traverse schema parent h =
     (case traverse_properties (sort_Slice (map snd (Schema_Properties items)))
             (Schema_Title (h (Schema_ptr schema)))
             (setProperties (Schema_Required items) (Schema_Properties items) h) of
        None \<Rightarrow> None
      | Some (parameters, h2) \<Rightarrow>
          Some ((setNode schema h)\<lparr>Parent := parent, DataType := ''array[object]''\<rparr> # parameters, h2))"
  by (simp add: traverse.simps(1) Let_def)

lemma traverse_array_plain:
  "ToLower (Schema_Type schema) = ''array'' \<Longrightarrow> Schema_Items schema = Some items \<Longrightarrow>
   Schema_Type items \<noteq> ''object'' \<Longrightarrow>
   traverse schema parent h =
     Some ([(setNode schema h)\<lparr>Parent := parent,
              DataType := ''array['' @ Schema_Type items @ '']''\<rparr>], h)"
  by (simp add: traverse.simps(1) Let_def)

lemma traverse_array_nil:
  "ToLower (Schema_Type schema) = ''array'' \<Longrightarrow> Schema_Items schema = None \<Longrightarrow>
   traverse schema parent h = None"
  by (simp add: traverse.simps(1) Let_def)

lemma traverse_plain:
  "ToLower (Schema_Type schema) \<in> {''string'', ''number'', ''integer'', ''boolean''} \<Longrightarrow>
   traverse schema parent h = Some ([(setPlain schema h)\<lparr>Parent := parent\<rparr>], h)"
  by (auto simp add: traverse.simps(1) Let_def)

lemma traverse_other:
  "ToLower (Schema_Type schema) \<notin>
     {''object'', ''array'', ''string'', ''number'', ''integer'', ''boolean''} \<Longrightarrow>
   traverse schema parent h = Some ([], h)"
  by (auto simp add: traverse.simps(1) Let_def)



text \<open>
  Stores and records for the examples: no schema object has a title, or one has; a record
  of the body with an empty description.
\<close>

definition untitled :: store where
  "untitled = (\<lambda>a. \<lparr>Schema_Title = [], Schema_Nullable = False\<rparr>)"


definition body_parameter :: "string \<Rightarrow> string \<Rightarrow> string \<Rightarrow> bool \<Rightarrow> Parameter" where
  "body_parameter parent name type required =
     \<lparr>Parent = parent, Name = name, Location = ''body'', DataType = type,
      Required = required, Description = []\<rparr>"


subsection \<open>What the traversal writes\<close>

text \<open>
  The addresses of the schema objects that are declared properties somewhere inside a
  schema (properties of the schema, of its properties, of its item schema, ...).
\<close>

fun property_ptrs :: "Schema \<Rightarrow> addr set" where
  "property_ptrs (Schema a t d r ps it) =
     (\<Union>p \<in> snd ` set ps. insert (Schema_ptr p) (property_ptrs p))
     \<union> (case it of None \<Rightarrow> {} | Some i \<Rightarrow> property_ptrs i)"

lemma property_ptrs_sel:
  "property_ptrs schema =
     (\<Union>p \<in> snd ` set (Schema_Properties schema). insert (Schema_ptr p) (property_ptrs p))
     \<union> (case Schema_Items schema of None \<Rightarrow> {} | Some i \<Rightarrow> property_ptrs i)"
  by (cases schema) simp

lemma setProperties_frame:
  "a \<notin> Schema_ptr ` snd ` set ps \<Longrightarrow> setProperties required ps h a = h a"
  by (induction ps arbitrary: h) auto

lemma set_sort_Slice: "set (sort_Slice ps) = set ps"
  unfolding sort_Slice_eq by auto

lemma traverse_frame:
  shows "traverse schema parent h = Some (rs, h') \<longrightarrow> a \<notin> property_ptrs schema \<longrightarrow> h' a = h a"
    and "traverse_properties properties parent h = Some (rs, h') \<longrightarrow>
           a \<notin> (\<Union>p \<in> set properties. insert (Schema_ptr p) (property_ptrs p)) \<longrightarrow> h' a = h a"
proof (induction schema parent h and properties parent h arbitrary: rs h' and rs h'
    rule: traverse_traverse_properties.induct)
  case (1 schema parent h)
  show ?case
  proof (intro impI)
    assume t: "traverse schema parent h = Some (rs, h')" and a: "a \<notin> property_ptrs schema"
    consider (obj) "ToLower (Schema_Type schema) = ''object''"
      | (arr) "ToLower (Schema_Type schema) \<noteq> ''object''" "ToLower (Schema_Type schema) = ''array''"
      | (other) "ToLower (Schema_Type schema) \<noteq> ''object''" "ToLower (Schema_Type schema) \<noteq> ''array''"
      by blast
    then show "h' a = h a"
    proof cases
      case obj
      let ?h1 = "setProperties (Schema_Required schema) (Schema_Properties schema) h"
      let ?ps = "sort_Slice (map snd (Schema_Properties schema))"
      from t obj obtain rs' where
        r: "traverse_properties ?ps (Name (setNode schema h\<lparr>Parent := parent\<rparr>)) ?h1 = Some (rs', h')"
        by (auto simp: traverse_object split: option.splits)
      have na: "a \<notin> (\<Union>p \<in> set ?ps. insert (Schema_ptr p) (property_ptrs p))"
        using a by (subst (asm) property_ptrs_sel) (auto simp: set_sort_Slice)
      have "h' a = ?h1 a"
        using "1.IH"(1)[OF refl obj refl refl refl, of rs' h'] r na by blast
      moreover have "?h1 a = h a"
        using a by (subst (asm) property_ptrs_sel) (auto intro!: setProperties_frame)
      ultimately show ?thesis by simp
    next
      case arr
      show ?thesis
      proof (cases "Schema_Items schema")
        case None
        then show ?thesis using t arr by (simp add: traverse_array_nil)
      next
        case (Some items)
        show ?thesis
        proof (cases "Schema_Type items = ''object''")
          case False
          then show ?thesis using t arr Some by (simp add: traverse_array_plain)
        next
          case True
          let ?h1 = "setProperties (Schema_Required items) (Schema_Properties items) h"
          let ?ps = "sort_Slice (map snd (Schema_Properties items))"
          let ?p = "setNode schema h\<lparr>Parent := parent, DataType := ''array['' @ Schema_Type items @ '']''\<rparr>"
          from t arr Some True obtain rs' where
            r: "traverse_properties ?ps (Name ?p) ?h1 = Some (rs', h')"
            by (auto simp: traverse_array_object split: option.splits)
          have ai: "a \<notin> property_ptrs items"
            using a Some by (subst (asm) property_ptrs_sel) simp
          have na: "a \<notin> (\<Union>p \<in> set ?ps. insert (Schema_ptr p) (property_ptrs p))"
            using ai by (subst (asm) property_ptrs_sel) (auto simp: set_sort_Slice)
          have "h' a = ?h1 a"
            using "1.IH"(2)[OF refl arr(1) arr(2) Some refl True refl refl, of rs' h'] r na by blast
          moreover have "?h1 a = h a"
            using ai by (subst (asm) property_ptrs_sel) (auto intro!: setProperties_frame)
          ultimately show ?thesis by simp
        qed
      qed
    next
      case other
      then show ?thesis using t
        by (cases "ToLower (Schema_Type schema) \<in> {''string'', ''number'', ''integer'', ''boolean''}")
          (auto simp: traverse_plain traverse_other)
    qed
  qed
next
  case (2 parent h)
  then show ?case by simp
next
  case (3 property properties parent h)
  show ?case
  proof (intro impI)
    assume t: "traverse_properties (property # properties) parent h = Some (rs, h')"
      and a: "a \<notin> (\<Union>p \<in> set (property # properties). insert (Schema_ptr p) (property_ptrs p))"
    from t obtain r1 h1 r2 where
      t1: "traverse property parent h = Some (r1, h1)"
      and t2: "traverse_properties properties parent h1 = Some (r2, h')"
      by (auto split: option.splits)
    have "h1 a = h a" using "3.IH"(1)[of r1 h1] t1 a by simp
    moreover have "h' a = h1 a" using "3.IH"(2)[OF t1 refl, of r2 h'] t2 a by simp
    ultimately show "h' a = h a" by simp
  qed
qed

section \<open>Order of the flattened records\<close>




definition titled :: "addr \<Rightarrow> string \<Rightarrow> store" where
  "titled a name = untitled(a := \<lparr>Schema_Title = name, Schema_Nullable = False\<rparr>)"



section \<open>The input document under Transform\<close>

text \<open>
  The schemas that \<^verbatim>\<open>Transform\<close> flattens: those of the media types of the request
  body and of the response under \<^verbatim>\<open>"200"\<close>, for every operation of every path.
\<close>

definition media_schemas :: "(string \<times> MediaType) list \<Rightarrow> Schema list" where
  "media_schemas content =
     concat (map (\<lambda>(key, value). case MediaType_Schema value of None \<Rightarrow> [] | Some schema \<Rightarrow> [schema])
       content)"

definition operation_schemas :: "Operation \<Rightarrow> Schema list" where
  "operation_schemas operation =
     (case Operation_RequestBody operation of
        None \<Rightarrow> []
      | Some body \<Rightarrow> media_schemas (RequestBody_Content body))
     @ (case map_of (Operation_Responses operation) ''200'' of
          None \<Rightarrow> []
        | Some response \<Rightarrow> media_schemas (Response_Content response))"

definition document_schemas :: "Swagger \<Rightarrow> Schema list" where
  "document_schemas swagger =
     concat (map (\<lambda>(path, item). concat (map (\<lambda>(method, operation). operation_schemas operation)
                                            (Operations item)))
               (Swagger_Paths swagger))"

definition written :: "Swagger \<Rightarrow> addr set" where
  "written swagger = (\<Union>schema \<in> set (document_schemas swagger). property_ptrs schema)"

lemma traverse_content_frame:
  "traverse_content content m h = Some (m', h') \<Longrightarrow>
   a \<notin> (\<Union>schema \<in> set (media_schemas content). property_ptrs schema) \<Longrightarrow> h' a = h a"
proof (induction content arbitrary: m h)
  case Nil
  then show ?case by simp
next
  case (Cons kv content)
  obtain key v where kv: "kv = (key, v)" by (cases kv)
  from Cons.prems(1) kv obtain schema ps h1 where
    s: "MediaType_Schema v = Some schema"
    and t: "traverse schema ''root'' h = Some (ps, h1)"
    and r: "traverse_content content (m(key \<mapsto> ps)) h1 = Some (m', h')"
    by (auto split: option.splits)
  have "a \<notin> property_ptrs schema" using Cons.prems(2) kv s by (simp add: media_schemas_def)
  then have "h1 a = h a" using traverse_frame(1) t by blast
  moreover have "h' a = h1 a"
    using Cons.IH[OF r] Cons.prems(2) kv by (simp add: media_schemas_def)
  ultimately show ?case by simp
qed

lemma switch_method_declared:
  assumes "switch_method (Find paths endpoint) method = Some (Some operation)"
  shows "\<exists>item m. (endpoint, item) \<in> set paths \<and> (m, operation) \<in> set (Operations item)"
proof -
  from assms obtain item where f: "map_of paths endpoint = Some item"
    by (cases "map_of paths endpoint")
       (auto simp: switch_method_def Find_def Let_def split: if_splits)
  then have m: "(endpoint, item) \<in> set paths" by (rule map_of_SomeD)
  from assms f have "operation \<in> {x. PathItem_Get item = Some x \<or> PathItem_Post item = Some x
      \<or> PathItem_Put item = Some x \<or> PathItem_Patch item = Some x \<or> PathItem_Delete item = Some x}"
    by (auto simp: switch_method_def Find_def Let_def split: if_splits option.splits)
  then have "\<exists>m. (m, operation) \<in> set (Operations item)"
    by (auto simp: Operations_def)
  then show ?thesis using m by blast
qed

lemma operation_schemas_written:
  "(endpoint, item) \<in> set (Swagger_Paths swagger) \<Longrightarrow> (m, operation) \<in> set (Operations item) \<Longrightarrow>
   schema \<in> set (operation_schemas operation) \<Longrightarrow> property_ptrs schema \<subseteq> written swagger"
  by (fastforce simp: written_def document_schemas_def)

lemma getRqBody_frame:
  assumes "getRqBody swagger endpoint method h = Some (m, h')" and "a \<notin> written swagger"
  shows "h' a = h a"
proof (cases "switch_method (Find (Swagger_Paths swagger) endpoint) method")
  case None
  then show ?thesis using assms by (simp add: getRqBody_def)
next
  case (Some sel)
  show ?thesis
  proof (cases sel)
    case None
    then show ?thesis using assms Some by (simp add: getRqBody_def)
  next
    case (Some operation)
    with \<open>switch_method (Find (Swagger_Paths swagger) endpoint) method = Some sel\<close>
    have sw: "switch_method (Find (Swagger_Paths swagger) endpoint) method = Some (Some operation)"
      by simp
    show ?thesis
    proof (cases "Operation_RequestBody operation")
      case None
      then show ?thesis using assms sw by (simp add: getRqBody_def)
    next
      case (Some body)
      then have t: "traverse_content (RequestBody_Content body) Map.empty h = Some (m, h')"
        using assms sw by (simp add: getRqBody_def)
      from switch_method_declared[OF sw] obtain item k where
        d: "(endpoint, item) \<in> set (Swagger_Paths swagger)" "(k, operation) \<in> set (Operations item)"
        by blast
      have "a \<notin> (\<Union>schema \<in> set (media_schemas (RequestBody_Content body)). property_ptrs schema)"
        using operation_schemas_written[OF d] assms(2) Some
        by (auto simp: operation_schemas_def)
      then show ?thesis using traverse_content_frame[OF t] by simp
    qed
  qed
qed

lemma getRsBody_frame:
  assumes "getRsBody swagger endpoint method h = Some (m, h')" and "a \<notin> written swagger"
  shows "h' a = h a"
proof (cases "switch_method (Find (Swagger_Paths swagger) endpoint) method")
  case None
  then show ?thesis using assms by (simp add: getRsBody_def)
next
  case (Some sel)
  show ?thesis
  proof (cases sel)
    case None
    then show ?thesis using assms Some by (simp add: getRsBody_def)
  next
    case (Some operation)
    with \<open>switch_method (Find (Swagger_Paths swagger) endpoint) method = Some sel\<close>
    have sw: "switch_method (Find (Swagger_Paths swagger) endpoint) method = Some (Some operation)"
      by simp
    show ?thesis
    proof (cases "map_of (Operation_Responses operation) ''200''")
      case None
      then show ?thesis using assms sw by (simp add: getRsBody_def)
    next
      case (Some body)
      then have t: "traverse_content (Response_Content body) Map.empty h = Some (m, h')"
        using assms sw by (simp add: getRsBody_def)
      from switch_method_declared[OF sw] obtain item k where
        d: "(endpoint, item) \<in> set (Swagger_Paths swagger)" "(k, operation) \<in> set (Operations item)"
        by blast
      have "a \<notin> (\<Union>schema \<in> set (media_schemas (Response_Content body)). property_ptrs schema)"
        using operation_schemas_written[OF d] assms(2) Some
        by (auto simp: operation_schemas_def)
      then show ?thesis using traverse_content_frame[OF t] by simp
    qed
  qed
qed

lemma fillResource_frame:
  assumes "fillResource swagger resource h = Some (filled, h')" and "a \<notin> written swagger"
  shows "h' a = h a"
proof -
  from assms(1) obtain rqBody h1 rsBody where
    1: "getRqBody swagger (Endpoint resource) (RequestVerb resource) h = Some (rqBody, h1)"
    and 2: "getRsBody swagger (Endpoint resource) (RequestVerb resource) h1 = Some (rsBody, h')"
    by (auto simp: fillResource_def Let_def split: option.splits prod.splits)
  show ?thesis using getRqBody_frame[OF 1 assms(2)] getRsBody_frame[OF 2 assms(2)] by simp
qed

lemma getResourceContent_frame:
  "getResourceContent swagger resources h = Some (filled, h') \<Longrightarrow> a \<notin> written swagger \<Longrightarrow>
   h' a = h a"
proof (induction resources arbitrary: h filled)
  case Nil
  then show ?case by simp
next
  case (Cons resource resources)
  from Cons.prems(1) obtain f h1 rest where
    1: "fillResource swagger resource h = Some (f, h1)"
    and 2: "getResourceContent swagger resources h1 = Some (rest, h')"
    by (auto split: option.splits)
  show ?case using fillResource_frame[OF 1 Cons.prems(2)] Cons.IH[OF 2 Cons.prems(2)] by simp
qed

text \<open>
  C2, as amended. \<^verbatim>\<open>Transform\<close> does not leave the document as it was. The fields it
  assigns are the title and the nullable flag of schema objects that are declared
  properties inside a schema of a request body or of a response under \<^verbatim>\<open>"200"\<close>;
  every other schema object keeps both fields (no other field is assigned anywhere in the
  source, so the tree of the document is the same before and after).
\<close>

theorem Transform_writes_only_properties:
  assumes "Transform swagger h = Some (design, h')" and "a \<notin> written swagger"
  shows "h' a = h a"
proof -
  from assms(1) obtain resources where
    "getResourceContent swagger (getResource swagger) h = Some (resources, h')"
    by (auto simp: Transform_def split: option.splits)
  then show ?thesis using assms(2) by (rule getResourceContent_frame)
qed

text \<open>
  A document with one \<^verbatim>\<open>POST\<close> operation whose request body is an object with the
  properties \<^verbatim>\<open>id\<close> (required) and \<^verbatim>\<open>name\<close>.
\<close>

definition pet_schema :: Schema where
  "pet_schema =
     Schema 1 ''object'' [] [''id'']
       [(''id'', Schema 2 ''integer'' [] [] [] None),
        (''name'', Schema 3 ''string'' [] [] [] None)]
       None"

definition post_operation :: Operation where
  "post_operation =
     \<lparr>Operation_Summary = ''create'', Operation_Description = [], Operation_Parameters = [],
      Operation_RequestBody =
        Some \<lparr>RequestBody_Content =
                [(''application/json'',
                  \<lparr>MediaType_Schema = Some pet_schema, MediaType_Examples = []\<rparr>)]\<rparr>,
      Operation_Responses = [(''200'', \<lparr>Response_Headers = [], Response_Content = []\<rparr>)]\<rparr>"

definition post_document :: Swagger where
  "post_document =
     \<lparr>Swagger_Info = Some api_info,
      Swagger_Paths = [(''/pets'', no_operations\<lparr>PathItem_Post := Some post_operation\<rparr>)],
      Swagger_SecuritySchemes = []\<rparr>"

definition fields_after :: "('a \<times> store) option \<Rightarrow> addr \<Rightarrow> SchemaFields option" where
  "fields_after result a = map_option (\<lambda>(x, h). h a) result"

lemma switch_post:
  "switch_method (Find (Swagger_Paths post_document) ''/pets'') ''post'' = Some (Some post_operation)"
  by (simp add: switch_method_def Find_def post_document_def no_operations_def lower_char_def)

lemma traverse_pet_schema:
  "traverse pet_schema ''root'' untitled =
     Some ([body_parameter ''root'' [] ''object'' True,
            body_parameter [] ''name'' ''string'' False,
            body_parameter [] ''id'' ''integer'' True],
           untitled(2 := \<lparr>Schema_Title = ''id'', Schema_Nullable = False\<rparr>,
                    3 := \<lparr>Schema_Title = ''name'', Schema_Nullable = True\<rparr>))"
  by (simp add: pet_schema_def traverse_object traverse_plain sort_Slice_eq composite_def
      lower_char_def setNode_def setPlain_def new_Parameter_def body_parameter_def untitled_def)

lemma getResource_post:
  "getResource post_document =
     [new_Resource\<lparr>ResourceDefinition := ''create'', Endpoint := ''/pets'',
                   TransportProtocol := ''HTTPS'', RequestVerb := ''post''\<rparr>]"
  by (simp add: getResource_def post_document_def Operations_def no_operations_def
      lower_char_def post_operation_def new_Resource_def)

lemma getRqBody_post:
  "getRqBody post_document ''/pets'' ''post'' untitled =
     Some ([''application/json'' \<mapsto>
              [body_parameter ''root'' [] ''object'' True,
               body_parameter [] ''name'' ''string'' False,
               body_parameter [] ''id'' ''integer'' True]],
           untitled(2 := \<lparr>Schema_Title = ''id'', Schema_Nullable = False\<rparr>,
                    3 := \<lparr>Schema_Title = ''name'', Schema_Nullable = True\<rparr>))"
  by (simp add: getRqBody_def switch_post) (simp add: post_operation_def traverse_pet_schema)

lemma Transform_post_store:
  "map_option snd (Transform post_document untitled) =
     Some (untitled(2 := \<lparr>Schema_Title = ''id'', Schema_Nullable = False\<rparr>,
                    3 := \<lparr>Schema_Title = ''name'', Schema_Nullable = True\<rparr>))"
proof -
  have p: "getPathParameter post_document ''/pets'' = Some []"
    by (simp add: getPathParameter_def Find_def post_document_def no_operations_def)
  have g: "getParameter post_document ''/pets'' ''post'' l = Some []" for l
    by (simp add: getParameter_def switch_post) (simp add: post_operation_def)
  have e: "getRqBodyExample post_document ''/pets'' ''post'' = Some Map.empty"
    by (simp add: getRqBodyExample_def switch_post) (simp add: post_operation_def)
  have hd: "getRsHeader post_document ''/pets'' ''post'' = Some []"
    by (simp add: getRsHeader_def switch_post) (simp add: post_operation_def)
  have b: "getRsBody post_document ''/pets'' ''post'' h = Some (Map.empty, h)" for h
    by (simp add: getRsBody_def switch_post) (simp add: post_operation_def)
  have x: "getRsBodyExample post_document ''/pets'' ''post'' = Some Map.empty"
    by (simp add: getRsBodyExample_def switch_post) (simp add: post_operation_def)
  have i: "getInfo post_document \<noteq> None"
    by (simp add: getInfo_def post_document_def)
  have f: "map_option snd (fillResource post_document
             (new_Resource\<lparr>ResourceDefinition := ''create'', Endpoint := ''/pets'',
                   TransportProtocol := ''HTTPS'', RequestVerb := ''post''\<rparr>) untitled) =
     Some (untitled(2 := \<lparr>Schema_Title = ''id'', Schema_Nullable = False\<rparr>,
                    3 := \<lparr>Schema_Title = ''name'', Schema_Nullable = True\<rparr>))"
    by (simp add: fillResource_def Let_def p g e hd b x getRqBody_post)
  have c: "map_option snd (getResourceContent post_document (getResource post_document) untitled) =
     Some (untitled(2 := \<lparr>Schema_Title = ''id'', Schema_Nullable = False\<rparr>,
                    3 := \<lparr>Schema_Title = ''name'', Schema_Nullable = True\<rparr>))"
    using f by (auto simp add: getResource_post split: option.splits)
  show ?thesis
    using i c by (auto simp add: Transform_def split: option.splits)
qed

text \<open>
  C2, as stated, fails: after \<^verbatim>\<open>Transform\<close> the schema objects of the two properties
  carry the titles \<^verbatim>\<open>id\<close> and \<^verbatim>\<open>name\<close>, which they did not have, and the
  second one is nullable, which it was not.
\<close>

theorem Transform_modifies_document:
  "fields_after (Transform post_document untitled) 2 =
      Some \<lparr>Schema_Title = ''id'', Schema_Nullable = False\<rparr>
   \<and> fields_after (Transform post_document untitled) 3 =
      Some \<lparr>Schema_Title = ''name'', Schema_Nullable = True\<rparr>
   \<and> untitled 2 = \<lparr>Schema_Title = [], Schema_Nullable = False\<rparr>
   \<and> untitled 3 = \<lparr>Schema_Title = [], Schema_Nullable = False\<rparr>"
proof -
  obtain d h' where t: "Transform post_document untitled = Some (d, h')"
    and h: "h' = untitled(2 := \<lparr>Schema_Title = ''id'', Schema_Nullable = False\<rparr>,
                    3 := \<lparr>Schema_Title = ''name'', Schema_Nullable = True\<rparr>)"
    using Transform_post_store by (cases "Transform post_document untitled") auto
  show ?thesis by (simp add: fields_after_def t h) (simp add: untitled_def)
qed

theorem Transform_writes_only_properties_witness:
  "(1::nat) \<notin> written post_document
   \<and> fields_after (Transform post_document untitled) 1 = Some (untitled 1)"
proof -
  obtain d h' where t: "Transform post_document untitled = Some (d, h')"
    using Transform_post_store by (cases "Transform post_document untitled") auto
  have w: "(1::nat) \<notin> written post_document"
    by (simp add: written_def document_schemas_def post_document_def Operations_def
        no_operations_def operation_schemas_def post_operation_def media_schemas_def
        pet_schema_def)
  show ?thesis
    using Transform_writes_only_properties[OF t w] w by (simp add: fields_after_def t)
qed

section \<open>Arrays\<close>







text \<open>The array \<^verbatim>\<open>tags\<close> with a primitive item schema.\<close>

definition node_tags :: "string \<Rightarrow> Schema" where
  "node_tags item_type = Schema 1 ''array'' [] [] [] (Some (Schema 2 item_type [] [] [] None))"

lemma traverse_array_type_tag:
  assumes "traverse schema parent h = Some (parameters, h')"
      and "ToLower (Schema_Type schema) = ''array''"
  shows "\<exists>items rest. Schema_Items schema = Some items
         \<and> parameters = (setNode schema h)\<lparr>Parent := parent,
              DataType := ''array['' @ Schema_Type items @ '']''\<rparr> # rest"
proof (cases "Schema_Items schema")
  case None
  then show ?thesis using assms by (simp add: traverse_array_nil)
next
  case (Some items)
  then show ?thesis using assms
    by (cases "Schema_Type items = ''object''")
       (auto simp: traverse_array_object traverse_array_plain split: option.splits)
qed

text \<open>
  C6. The claim fails on the code where the type tag of the item schema is not in lower
  case: \<^verbatim>\<open>traverse\<close> dispatches on the lower-cased tag of the node and \<^verbatim>\<open>setNode\<close>
  lower-cases the tag of the record, but the tag \<^verbatim>\<open>array[...]\<close> is formatted from the
  item tag as it is written. For the item tag \<^verbatim>\<open>String\<close> the record has the type
  \<^verbatim>\<open>array[String]\<close>, where the claim says \<^verbatim>\<open>array[string]\<close>. With the item tag
  \<^verbatim>\<open>string\<close> the result is the one record of the claim.
\<close>

theorem array_type_tag_not_lowered:
  "map_option fst (traverse (node_tags ''String'') ''root'' (titled 1 ''tags'')) =
     Some [body_parameter ''root'' ''tags'' ''array[String]'' True]
   \<and> ''array['' @ ToLower ''String'' @ '']'' = ''array[string]''
   \<and> map_option fst (traverse (node_tags ''string'') ''root'' (titled 1 ''tags'')) =
     Some [body_parameter ''root'' ''tags'' ''array[string]'' True]"
proof -
  have t: "traverse (node_tags ty) ''root'' (titled 1 ''tags'') =
      Some ([(setNode (node_tags ty) (titled 1 ''tags''))\<lparr>Parent := ''root'',
              DataType := ''array['' @ ty @ '']''\<rparr>], titled 1 ''tags'')"
    if "ty \<noteq> ''object''" for ty
    using traverse_array_plain[of "node_tags ty" "Schema 2 ty [] [] [] None" "''root''" "titled 1 ''tags''"] that
    by (simp add: node_tags_def lower_char_def)
  have n: "(setNode (node_tags ty) (titled 1 ''tags''))\<lparr>Parent := ''root'',
              DataType := ''array['' @ ty @ '']''\<rparr> =
            body_parameter ''root'' ''tags'' (''array['' @ ty @ '']'') True" for ty
    by (simp add: setNode_def new_Parameter_def body_parameter_def node_tags_def titled_def)
  have 1: "map_option fst (traverse (node_tags ''String'') ''root'' (titled 1 ''tags'')) =
     Some [body_parameter ''root'' ''tags'' ''array[String]'' True]"
    using t[of "''String''"] n[of "''String''"] by simp
  have 2: "map_option fst (traverse (node_tags ''string'') ''root'' (titled 1 ''tags'')) =
     Some [body_parameter ''root'' ''tags'' ''array[string]'' True]"
    using t[of "''string''"] n[of "''string''"] by simp
  have 3: "''array['' @ ToLower ''String'' @ '']'' = ''array[string]''"
    by (simp add: lower_char_def)
  show ?thesis using 1 2 3 by simp
qed

section \<open>Required properties\<close>

lemma traverse_head_fields:
  assumes "traverse schema parent h = Some (rs, h')"
  shows "rs = [] \<or> (Name (hd rs) = Schema_Title (h (Schema_ptr schema))
                   \<and> Required (hd rs) = (\<not> Schema_Nullable (h (Schema_ptr schema))))"
proof -
  consider (obj) "ToLower (Schema_Type schema) = ''object''"
    | (arr) "ToLower (Schema_Type schema) = ''array''"
    | (plain) "ToLower (Schema_Type schema) \<in> {''string'', ''number'', ''integer'', ''boolean''}"
    | (other) "ToLower (Schema_Type schema) \<notin>
        {''object'', ''array'', ''string'', ''number'', ''integer'', ''boolean''}"
    by blast
  then show ?thesis
  proof cases
    case obj
    then show ?thesis using assms
      by (auto simp: traverse_object setNode_def new_Parameter_def split: option.splits)
  next
    case arr
    show ?thesis
    proof (cases "Schema_Items schema")
      case None
      then show ?thesis using assms arr by (simp add: traverse_array_nil)
    next
      case (Some items)
      then show ?thesis using assms arr
        by (cases "Schema_Type items = ''object''")
           (auto simp: traverse_array_object traverse_array_plain setNode_def new_Parameter_def
              split: option.splits)
    qed
  next
    case plain
    then show ?thesis using assms by (auto simp: traverse_plain setPlain_def new_Parameter_def)
  next
    case other
    then show ?thesis using assms by (auto simp: traverse_other)
  qed
qed

lemma setProperties_value:
  "distinct (map (Schema_ptr \<circ> snd) ps) \<Longrightarrow> (key, p) \<in> set ps \<Longrightarrow>
   setProperties required ps h (Schema_ptr p) =
     \<lparr>Schema_Title = key, Schema_Nullable = \<not> contains required key\<rparr>"
proof (induction ps arbitrary: h)
  case Nil
  then show ?case by simp
next
  case (Cons a ps)
  obtain k q where a: "a = (k, q)" by (cases a)
  show ?case
  proof (cases "(key, p) \<in> set ps")
    case True
    then show ?thesis using Cons a by simp
  next
    case False
    then have e: "k = key" "q = p" using Cons.prems(2) a by auto
    have "Schema_ptr p \<notin> Schema_ptr ` snd ` set ps" using Cons.prems(1) a e by (auto simp: image_iff)
    then show ?thesis using a e by (simp add: setProperties_frame)
  qed
qed

lemma traverse_properties_fields:
  assumes "traverse_properties qs parent h = Some (rs, h')"
      and "\<forall>p \<in> set qs. \<forall>q \<in> set qs. Schema_ptr p \<notin> property_ptrs q"
  shows "\<exists>rss. rs = concat rss
       \<and> list_all2 (\<lambda>p records. records = [] \<or>
                       (Name (hd records) = Schema_Title (h (Schema_ptr p))
                        \<and> Required (hd records) = (\<not> Schema_Nullable (h (Schema_ptr p)))))
           qs rss"
  using assms
proof (induction qs arbitrary: h rs)
  case Nil
  then show ?case by simp
next
  case (Cons q qs)
  from Cons.prems(1) obtain r1 h1 r2 where
    t1: "traverse q parent h = Some (r1, h1)"
    and t2: "traverse_properties qs parent h1 = Some (r2, h')"
    and rs: "rs = r1 @ r2"
    by (auto split: option.splits)
  have fr: "h1 (Schema_ptr p) = h (Schema_ptr p)" if "p \<in> set qs" for p
    using traverse_frame(1)[of q parent h r1 h1 "Schema_ptr p"] t1 Cons.prems(2) that by simp
  from Cons.IH[OF t2] Cons.prems(2) obtain rss where
    c: "r2 = concat rss"
    and l: "list_all2 (\<lambda>p records. records = [] \<or>
                       (Name (hd records) = Schema_Title (h1 (Schema_ptr p))
                        \<and> Required (hd records) = (\<not> Schema_Nullable (h1 (Schema_ptr p)))))
           qs rss"
    by auto
  have l': "list_all2 (\<lambda>p records. records = [] \<or>
                       (Name (hd records) = Schema_Title (h (Schema_ptr p))
                        \<and> Required (hd records) = (\<not> Schema_Nullable (h (Schema_ptr p)))))
           qs rss"
    using l by (rule list.rel_mono_strong) (auto simp: fr)
  show ?case
    using traverse_head_fields[OF t1] rs c l'
    by (intro exI[of _ "r1 # rss"]) simp
qed

text \<open>
  Where the properties of an object are distinct schema objects, and none of them is a
  declared property inside one of them, every property's own record carries the key as
  its name and is required exactly when the key is in the required list of the object.
\<close>

lemma required_propagation_without_sharing:
  assumes "traverse schema parent h = Some (parameters, h')"
      and "ToLower (Schema_Type schema) = ''object''"
      and "distinct (map (Schema_ptr \<circ> snd) (Schema_Properties schema))"
      and "\<forall>p \<in> snd ` set (Schema_Properties schema).
             \<forall>q \<in> snd ` set (Schema_Properties schema). Schema_ptr p \<notin> property_ptrs q"
  shows "\<exists>rss. parameters = (setNode schema h)\<lparr>Parent := parent\<rparr> # concat rss
       \<and> list_all2
           (\<lambda>p records. records = [] \<or>
              (\<exists>key. (key, p) \<in> set (Schema_Properties schema)
                    \<and> Name (hd records) = key
                    \<and> Required (hd records) = contains (Schema_Required schema) key))
           (sort_Slice (map snd (Schema_Properties schema))) rss"
proof -
  let ?h1 = "setProperties (Schema_Required schema) (Schema_Properties schema) h"
  let ?qs = "sort_Slice (map snd (Schema_Properties schema))"
  from assms(1,2) obtain rest where
    p: "parameters = (setNode schema h)\<lparr>Parent := parent\<rparr> # rest"
    and r: "traverse_properties ?qs (Schema_Title (h (Schema_ptr schema))) ?h1 = Some (rest, h')"
    by (auto simp: traverse_object split: option.splits)
  have "\<forall>p \<in> set ?qs. \<forall>q \<in> set ?qs. Schema_ptr p \<notin> property_ptrs q"
    using assms(4) by (simp add: set_sort_Slice)
  from traverse_properties_fields[OF r this] obtain rss where
    c: "rest = concat rss"
    and l: "list_all2 (\<lambda>p records. records = [] \<or>
                       (Name (hd records) = Schema_Title (?h1 (Schema_ptr p))
                        \<and> Required (hd records) = (\<not> Schema_Nullable (?h1 (Schema_ptr p)))))
           ?qs rss"
    by blast
  have "list_all2
           (\<lambda>p records. records = [] \<or>
              (\<exists>key. (key, p) \<in> set (Schema_Properties schema)
                    \<and> Name (hd records) = key
                    \<and> Required (hd records) = contains (Schema_Required schema) key))
           ?qs rss"
    using l
  proof (rule list.rel_mono_strong)
    fix p records
    assume m: "p \<in> set ?qs"
      and f: "records = [] \<or>
                       (Name (hd records) = Schema_Title (?h1 (Schema_ptr p))
                        \<and> Required (hd records) = (\<not> Schema_Nullable (?h1 (Schema_ptr p))))"
    from m obtain key where k: "(key, p) \<in> set (Schema_Properties schema)"
      by (auto simp: set_sort_Slice)
    have "?h1 (Schema_ptr p) = \<lparr>Schema_Title = key,
            Schema_Nullable = \<not> contains (Schema_Required schema) key\<rparr>"
      using setProperties_value[OF assms(3) k] .
    with f k show "records = [] \<or>
              (\<exists>key. (key, p) \<in> set (Schema_Properties schema)
                    \<and> Name (hd records) = key
                    \<and> Required (hd records) = contains (Schema_Required schema) key)"
      by auto
  qed
  with p c show ?thesis by blast
qed

text \<open>
  An object \<^verbatim>\<open>pet\<close> with the required list \<^verbatim>\<open>["id"]\<close> and the given properties.
\<close>

definition shared_properties :: "(string \<times> Schema) list \<Rightarrow> Schema" where
  "shared_properties properties = Schema 1 ''object'' [] [''id''] properties None"

text \<open>
  C4. The claim fails on the code when two properties of an object are the same schema
  object (two references to one component schema): the first loop writes the key and the
  flag of both properties into that one object, and both records are built from what the
  second write left. With the properties \<^verbatim>\<open>id\<close> and \<^verbatim>\<open>name\<close> in this order both
  records are named \<^verbatim>\<open>name\<close> and are not required; in the other order both are named
  \<^verbatim>\<open>id\<close> and are required. With two distinct schema objects the records are those of
  the claim, as \<open>required_propagation_without_sharing\<close> says in general.
\<close>

theorem shared_property_loses_required:
  "map_option fst (traverse (shared_properties [(''id'', string_schema 2), (''name'', string_schema 2)])
       ''root'' (titled 1 ''pet'')) =
     Some [body_parameter ''root'' ''pet'' ''object'' True,
           body_parameter ''pet'' ''name'' ''string'' False,
           body_parameter ''pet'' ''name'' ''string'' False]
   \<and> map_option fst (traverse (shared_properties [(''name'', string_schema 2), (''id'', string_schema 2)])
       ''root'' (titled 1 ''pet'')) =
     Some [body_parameter ''root'' ''pet'' ''object'' True,
           body_parameter ''pet'' ''id'' ''string'' True,
           body_parameter ''pet'' ''id'' ''string'' True]
   \<and> map_option fst (traverse (shared_properties [(''id'', string_schema 2), (''name'', string_schema 3)])
       ''root'' (titled 1 ''pet'')) =
     Some [body_parameter ''root'' ''pet'' ''object'' True,
           body_parameter ''pet'' ''name'' ''string'' False,
           body_parameter ''pet'' ''id'' ''string'' True]"
  by (simp add: shared_properties_def string_schema_def traverse_object traverse_plain
      sort_Slice_eq composite_def lower_char_def setNode_def setPlain_def new_Parameter_def
      body_parameter_def untitled_def titled_def)

section \<open>Declared parameters\<close>













section \<open>Security schemes\<close>

text \<open>The record that \<^verbatim>\<open>getAuthentication\<close> builds for one scheme; it is required.\<close>

definition scheme_parameter :: "SecurityScheme \<Rightarrow> Parameter" where
  "scheme_parameter scheme =
     \<lparr>Parent = [], Name = SecurityScheme_Name scheme, Location = SecurityScheme_In scheme,
      DataType = SecurityScheme_Type scheme, Required = True,
      Description = SecurityScheme_Description scheme\<rparr>"

lemma getAuthentication_map:
  "getAuthentication swagger = map (scheme_parameter \<circ> snd) (Swagger_SecuritySchemes swagger)"
  by (simp add: getAuthentication_def scheme_parameter_def new_Parameter_def split_def comp_def)

lemma getAuthentication_filter:
  "filter (\<lambda>p. Location p = l) (getAuthentication swagger) =
     map scheme_parameter
       (filter (\<lambda>scheme. SecurityScheme_In scheme = l) (map snd (Swagger_SecuritySchemes swagger)))"
  by (simp add: getAuthentication_map filter_map comp_def scheme_parameter_def)

lemma fillResource_content:
  assumes "fillResource swagger resource h = Some (filled, h')"
  shows "\<exists>rqHeader rqQuery.
           getParameter swagger (Endpoint resource) (RequestVerb resource) ''header'' = Some rqHeader
         \<and> getParameter swagger (Endpoint resource) (RequestVerb resource) ''query'' = Some rqQuery
         \<and> RqHeader (ResourceContent filled) =
             RqHeader (ResourceContent resource)
             @ filter (\<lambda>p. Location p = ''header'') (getAuthentication swagger) @ rqHeader
         \<and> RqQuery (ResourceContent filled) =
             RqQuery (ResourceContent resource)
             @ filter (\<lambda>p. Location p = ''query'') (getAuthentication swagger) @ rqQuery
         \<and> Endpoint filled = Endpoint resource \<and> RequestVerb filled = RequestVerb resource"
  using assms
  by (auto simp: fillResource_def Let_def split: option.splits prod.splits)

lemma getResourceContent_members:
  "getResourceContent swagger resources h = Some (filled, h') \<Longrightarrow> f \<in> set filled \<Longrightarrow>
   \<exists>r hi hj. r \<in> set resources \<and> fillResource swagger r hi = Some (f, hj)"
proof (induction resources arbitrary: h filled)
  case Nil
  then show ?case by simp
next
  case (Cons resource resources)
  from Cons.prems(1) obtain f1 h1 rest where
    1: "fillResource swagger resource h = Some (f1, h1)"
    and 2: "getResourceContent swagger resources h1 = Some (rest, h')"
    and 3: "filled = f1 # rest"
    by (auto split: option.splits)
  show ?case
  proof (cases "f = f1")
    case True
    then show ?thesis using 1 by auto
  next
    case False
    then have "f \<in> set rest" using Cons.prems(2) 3 by simp
    from Cons.IH[OF 2 this] show ?thesis by auto
  qed
qed

text \<open>
  C9. In every Resource of the result of \<^verbatim>\<open>Transform\<close> the request-header list is the
  list of the records of the schemes with location \<^verbatim>\<open>header\<close>, one for every such
  scheme, each required, in the order in which the scheme map is iterated, followed by
  the header parameters of the operation; the request-query list is the same with
  \<^verbatim>\<open>query\<close>.
\<close>

theorem security_schemes_in_every_resource:
  assumes "Transform swagger h = Some (design, h')"
      and "resource \<in> set (Resources design)"
  shows "\<exists>rqHeader rqQuery.
           getParameter swagger (Endpoint resource) (RequestVerb resource) ''header'' = Some rqHeader
         \<and> getParameter swagger (Endpoint resource) (RequestVerb resource) ''query'' = Some rqQuery
         \<and> RqHeader (ResourceContent resource) =
             map scheme_parameter
               (filter (\<lambda>scheme. SecurityScheme_In scheme = ''header'')
                  (map snd (Swagger_SecuritySchemes swagger))) @ rqHeader
         \<and> RqQuery (ResourceContent resource) =
             map scheme_parameter
               (filter (\<lambda>scheme. SecurityScheme_In scheme = ''query'')
                  (map snd (Swagger_SecuritySchemes swagger))) @ rqQuery"
proof -
  from assms(1) obtain resources where
    c: "getResourceContent swagger (getResource swagger) h = Some (resources, h')"
    and d: "Resources design = resources"
    by (auto simp: Transform_def split: option.splits)
  from getResourceContent_members[OF c] assms(2) d obtain r hi hj where
    r: "r \<in> set (getResource swagger)" and f: "fillResource swagger r hi = Some (resource, hj)"
    by blast
  have e: "ResourceContent r = new_ResourceContent" using getResource_fields[OF r] by simp
  from fillResource_content[OF f] show ?thesis
    by (auto simp: e new_ResourceContent_def getAuthentication_filter)
qed

text \<open>A document with a header scheme, a query scheme and one operation.\<close>

definition api_key :: SecurityScheme where
  "api_key =
     \<lparr>SecurityScheme_Name = ''X-API-Key'', SecurityScheme_In = ''header'',
      SecurityScheme_Type = ''apiKey'', SecurityScheme_Description = []\<rparr>"

definition token :: SecurityScheme where
  "token =
     \<lparr>SecurityScheme_Name = ''token'', SecurityScheme_In = ''query'',
      SecurityScheme_Type = ''apiKey'', SecurityScheme_Description = []\<rparr>"

definition key_document :: Swagger where
  "key_document =
     \<lparr>Swagger_Info = Some api_info,
      Swagger_Paths = [(''/pets'', no_operations\<lparr>PathItem_Get := Some plain_operation\<rparr>)],
      Swagger_SecuritySchemes = [(''ApiKeyAuth'', api_key), (''TokenAuth'', token)]\<rparr>"

definition key_resource :: Resource where
  "key_resource =
     \<lparr>ResourceDefinition = ''list'', Description = [], Endpoint = ''/pets'',
      TransportProtocol = ''HTTPS'', RequestVerb = ''get'',
      ResourceContent =
        \<lparr>RqHeader = [scheme_parameter api_key], RqPath = [],
         RqQuery = [scheme_parameter token], RqBody = Map.empty, RqBodyExample = Map.empty,
         RsHeader = [], RsBody = Map.empty, RsBodyExample = Map.empty\<rparr>\<rparr>"

lemma switch_key:
  "switch_method (Find (Swagger_Paths key_document) ''/pets'') ''get'' = Some (Some plain_operation)"
  by (simp add: switch_method_def Find_def key_document_def no_operations_def lower_char_def)

lemma getParameter_key: "getParameter key_document ''/pets'' ''get'' l = Some []"
  by (simp add: getParameter_def switch_key) (simp add: plain_operation_def)

lemma Transform_key:
  "Transform key_document untitled =
     Some (\<lparr>Info = \<lparr>Title = ''pets'', Version = ''1'', Description = []\<rparr>,
            Resources = [key_resource]\<rparr>, untitled)"
proof -
  have r: "getResource key_document =
     [new_Resource\<lparr>ResourceDefinition := ''list'', Endpoint := ''/pets'',
                   TransportProtocol := ''HTTPS'', RequestVerb := ''get''\<rparr>]"
    by (simp add: getResource_def key_document_def Operations_def no_operations_def
        lower_char_def plain_operation_def new_Resource_def)
  have a: "getAuthentication key_document = [scheme_parameter api_key, scheme_parameter token]"
    by (simp add: getAuthentication_map key_document_def)
  have p: "getPathParameter key_document ''/pets'' = Some []"
    by (simp add: getPathParameter_def Find_def key_document_def no_operations_def)
  have q: "getRqBody key_document ''/pets'' ''get'' h = Some (Map.empty, h)" for h
    by (simp add: getRqBody_def switch_key) (simp add: plain_operation_def)
  have e: "getRqBodyExample key_document ''/pets'' ''get'' = Some Map.empty"
    by (simp add: getRqBodyExample_def switch_key) (simp add: plain_operation_def)
  have hd: "getRsHeader key_document ''/pets'' ''get'' = Some []"
    by (simp add: getRsHeader_def switch_key) (simp add: plain_operation_def)
  have b: "getRsBody key_document ''/pets'' ''get'' h = Some (Map.empty, h)" for h
    by (simp add: getRsBody_def switch_key) (simp add: plain_operation_def)
  have x: "getRsBodyExample key_document ''/pets'' ''get'' = Some Map.empty"
    by (simp add: getRsBodyExample_def switch_key) (simp add: plain_operation_def)
  have i: "getInfo key_document = Some \<lparr>Title = ''pets'', Version = ''1'', Description = []\<rparr>"
    by (simp add: getInfo_def key_document_def api_info_def)
  have f: "fillResource key_document
             (new_Resource\<lparr>ResourceDefinition := ''list'', Endpoint := ''/pets'',
                   TransportProtocol := ''HTTPS'', RequestVerb := ''get''\<rparr>) untitled =
           Some (key_resource, untitled)"
    by (simp add: fillResource_def Let_def a p getParameter_key q e hd b x)
       (simp add: new_Resource_def new_ResourceContent_def key_resource_def scheme_parameter_def
          api_key_def token_def)
  show ?thesis by (simp add: Transform_def i r f)
qed

theorem security_schemes_in_every_resource_witness:
  "Transform key_document untitled =
     Some (\<lparr>Info = \<lparr>Title = ''pets'', Version = ''1'', Description = []\<rparr>,
            Resources = [key_resource]\<rparr>, untitled)
   \<and> RqHeader (ResourceContent key_resource) = [scheme_parameter api_key]
   \<and> RqQuery (ResourceContent key_resource) = [scheme_parameter token]
   \<and> Required (scheme_parameter api_key)
   \<and> (\<exists>rqHeader rqQuery.
         RqHeader (ResourceContent key_resource) =
           map scheme_parameter
             (filter (\<lambda>scheme. SecurityScheme_In scheme = ''header'')
                (map snd (Swagger_SecuritySchemes key_document))) @ rqHeader
       \<and> RqQuery (ResourceContent key_resource) =
           map scheme_parameter
             (filter (\<lambda>scheme. SecurityScheme_In scheme = ''query'')
                (map snd (Swagger_SecuritySchemes key_document))) @ rqQuery)"
proof -
  have m: "key_resource \<in> set (Resources \<lparr>Info = \<lparr>Title = ''pets'', Version = ''1'', Description = []\<rparr>,
            Resources = [key_resource]\<rparr>)"
    by simp
  from security_schemes_in_every_resource[OF Transform_key m]
  have "\<exists>rqHeader rqQuery.
         RqHeader (ResourceContent key_resource) =
           map scheme_parameter
             (filter (\<lambda>scheme. SecurityScheme_In scheme = ''header'')
                (map snd (Swagger_SecuritySchemes key_document))) @ rqHeader
       \<and> RqQuery (ResourceContent key_resource) =
           map scheme_parameter
             (filter (\<lambda>scheme. SecurityScheme_In scheme = ''query'')
                (map snd (Swagger_SecuritySchemes key_document))) @ rqQuery"
    by blast
  then show ?thesis
    using Transform_key by (simp add: key_resource_def scheme_parameter_def)
qed


section \<open>Responses\<close>










end
